theory Spec2Isabelle
  imports Complex_Main
begin

section \<open>JavaScript values\<close>

text \<open>
  Both source files are JavaScript/TypeScript. Values are modelled by a datatype:
  primitives carry their content, objects (functions, classes and arrays included) are
  references \<open>JObj a\<close> compared by identity. A number is a double; the code never does
  arithmetic on one, so a double is modelled by the rational it denotes, plus the three
  special values (\<open>+0\<close> and \<open>-0\<close> are both \<open>Finite 0\<close>; \<open>!==\<close> and truthiness do not
  tell them apart).
\<close>

type_synonym addr = nat

datatype jsnum = NaN | PosInf | NegInf | Finite rat

datatype jsval =
    JUndefined
  | JNull
  | JBool bool
  | JNum jsnum
  | JStr string
  | JObj addr

text \<open>ToBoolean, as used by \<open>&&\<close>, \<open>||\<close> and \<open>if\<close>.\<close>

fun truthy :: "jsval \<Rightarrow> bool" where
  "truthy JUndefined = False"
| "truthy JNull = False"
| "truthy (JBool b) = b"
| "truthy (JNum n) = (n \<noteq> NaN \<and> n \<noteq> Finite 0)"
| "truthy (JStr s) = (s \<noteq> [])"
| "truthy (JObj a) = True"

text \<open>\<open>a === b\<close>: \<open>NaN\<close> is not equal to itself, everything else compares by value
  (primitives) or by reference (objects).\<close>

fun strict_eq :: "jsval \<Rightarrow> jsval \<Rightarrow> bool" where
  "strict_eq (JNum a) (JNum b) = (a \<noteq> NaN \<and> b \<noteq> NaN \<and> a = b)"
| "strict_eq a b = (a = b)"

text \<open>\<open>a !== b\<close>.\<close>

definition strict_neq :: "jsval \<Rightarrow> jsval \<Rightarrow> bool" where
  "strict_neq a b = (\<not> strict_eq a b)"

text \<open>\<open>a || b\<close> and \<open>a && b\<close> on operands whose evaluation has no effect.\<close>

definition js_or :: "jsval \<Rightarrow> jsval \<Rightarrow> jsval" where
  "js_or a b = (if truthy a then a else b)"

definition js_and :: "jsval \<Rightarrow> jsval \<Rightarrow> jsval" where
  "js_and a b = (if truthy a then b else a)"

text \<open>What a call can throw: the engine's \<open>TypeError\<close>, or any value thrown by host code.\<close>

datatype exn = TypeError | Thrown jsval


section \<open>ScriptBase (src/system\_lib/ScriptBase.js)\<close>

subsection \<open>The script instance, the host and the state\<close>

text \<open>
  The two closures that \<open>ScriptBase.prototype.property\<close> creates are kept as data:
  \<open>GetShim gsFunc\<close> is \<open>function () { return gsFunc(); }\<close> and \<open>SetShim name gsFunc\<close> is
  \<open>function (value) { var oldValue = gsFunc(); if (oldValue !== gsFunc(value))
  this.__scriptFacade.changed(name); }\<close>, each with the variables it captures.

  An own property of the instance is a data property (created by an assignment, hence
  configurable and writable) or an accessor property made by \<open>Object.defineProperty\<close>,
  with its \<open>configurable\<close> attribute, its getter and its setter if it has one.
\<close>

datatype getter = GetShim jsval

datatype setter = SetShim string jsval

datatype slot =
    Data jsval
  | Accessor bool getter "setter option"

text \<open>
  The world that JavaScript code sees: the own properties of the script instance
  (\<open>this\<close>), the properties of the other objects (read by \<open>options.readOnly\<close>; an absent
  property reads as \<open>undefined\<close>), and the state of the host, of any type \<open>'h\<close>.
\<close>

record 'h world =
  self :: "string \<rightharpoonup> slot"
  props :: "addr \<Rightarrow> string \<Rightarrow> jsval"
  host :: 'h

text \<open>
  The host environment is a parameter of the model: what calling a function value does
  (\<open>call\<close>, used for \<open>gsFunc\<close>) and what invoking a named method of an object does
  (\<open>invoke\<close>, used for the facade). Both may read and change the whole world, return a
  value or throw.
\<close>

record 'h env =
  call :: "jsval \<Rightarrow> jsval list \<Rightarrow> 'h world \<Rightarrow> (exn + jsval) \<times> 'h world"
  invoke :: "jsval \<Rightarrow> string \<Rightarrow> jsval list \<Rightarrow> 'h world \<Rightarrow> (exn + jsval) \<times> 'h world"

text \<open>
  The calls that the code of \<open>ScriptBase\<close> makes are recorded, in order, in a trace that
  host code cannot touch: a call of a function value, an invocation of a method, and
  a call \<open>Object.defineProperty(this, name, d)\<close>, with whether \<open>d\<close> has a \<open>set\<close>.
\<close>

datatype event =
    Call jsval "jsval list"
  | Invoke jsval string "jsval list"
  | Define string bool

record 'h state =
  world :: "'h world"
  trace :: "event list"

type_synonym ('a, 'h) js = "'h state \<Rightarrow> (exn + 'a) \<times> 'h state"

definition js_return :: "'a \<Rightarrow> ('a, 'h) js" where
  "js_return x s = (Inr x, s)"

definition js_bind :: "('a, 'h) js \<Rightarrow> ('a \<Rightarrow> ('b, 'h) js) \<Rightarrow> ('b, 'h) js" where
  "js_bind m f s = (case m s of (Inl e, s') \<Rightarrow> (Inl e, s') | (Inr x, s') \<Rightarrow> f x s')"

text \<open>\<open>f(args)\<close>: calling anything but an object is a \<open>TypeError\<close> of the engine; what
  calling an object does is the host's business.\<close>

definition call_fn :: "'h env \<Rightarrow> jsval \<Rightarrow> jsval list \<Rightarrow> (jsval, 'h) js" where
  "call_fn env f args s =
     (case f of
        JObj a \<Rightarrow>
          (case call env f args (world s) of
             (r, w') \<Rightarrow> (r, \<lparr>world = w', trace = trace s @ [Call f args]\<rparr>))
      | _ \<Rightarrow> (Inl TypeError, s))"

text \<open>\<open>recv.m(args)\<close>: reading a member of \<open>undefined\<close> or \<open>null\<close> is a \<open>TypeError\<close>;
  otherwise the host decides (a missing method is its \<open>TypeError\<close> to raise).\<close>

definition invoke_method :: "'h env \<Rightarrow> jsval \<Rightarrow> string \<Rightarrow> jsval list \<Rightarrow> (jsval, 'h) js" where
  "invoke_method env recv m args s =
     (case recv of
        JUndefined \<Rightarrow> (Inl TypeError, s)
      | JNull \<Rightarrow> (Inl TypeError, s)
      | _ \<Rightarrow>
          (case invoke env recv m args (world s) of
             (r, w') \<Rightarrow> (r, \<lparr>world = w', trace = trace s @ [Invoke recv m args]\<rparr>)))"

text \<open>The getter shim: \<open>return gsFunc();\<close>\<close>

fun run_getter :: "'h env \<Rightarrow> getter \<Rightarrow> (jsval, 'h) js" where
  "run_getter env (GetShim gsFunc) = call_fn env gsFunc []"

text \<open>\<open>this[name]\<close> read by the code: a data property yields its value, an accessor runs
  its getter. Members inherited from the prototype are not modelled: the only name the
  code reads is \<open>__scriptFacade\<close>, which the prototype does not have.\<close>

definition get_self :: "'h env \<Rightarrow> string \<Rightarrow> (jsval, 'h) js" where
  "get_self env name s =
     (case self (world s) name of
        None \<Rightarrow> (Inr JUndefined, s)
      | Some (Data v) \<Rightarrow> (Inr v, s)
      | Some (Accessor c g st) \<Rightarrow> run_getter env g s)"

definition set_slot :: "string \<Rightarrow> slot \<Rightarrow> 'h state \<Rightarrow> 'h state" where
  "set_slot name sl s = s\<lparr>world := (world s)\<lparr>self := (self (world s))(name \<mapsto> sl)\<rparr>\<rparr>"

subsection \<open>The constructor\<close>

text \<open>\<open>function ScriptBase(scriptFacade) { this.__scriptFacade = scriptFacade; }\<close> on a
  new object: the own properties of the instance it returns.\<close>

definition ScriptBase :: "jsval \<Rightarrow> (string \<rightharpoonup> slot)" where
  "ScriptBase scriptFacade = [''__scriptFacade'' \<mapsto> Data scriptFacade]"

subsection \<open>Object.defineProperty on the instance\<close>

text \<open>
  \<open>Object.defineProperty(this, name, {get: g})\<close> or \<open>{get: g, set: st}\<close>, neither with
  \<open>configurable\<close> or \<open>enumerable\<close>, on an extensible instance:
  \<^item> no own property \<open>name\<close>: a new accessor property, not configurable;
  \<^item> a data property (configurable, as assignments make them): it becomes an accessor
    property and keeps \<open>configurable = true\<close>;
  \<^item> a configurable accessor property: the attributes present in the descriptor are
    replaced, so without \<open>set\<close> the setter it had stays;
  \<^item> an accessor property that is not configurable: \<open>TypeError\<close> (the shim closures are
    new function objects at every call, never the ones already there).
\<close>

definition defineProperty :: "string \<Rightarrow> getter \<Rightarrow> setter option \<Rightarrow> (unit, 'h) js" where
  "defineProperty name g st s =
     (let s' = s\<lparr>trace := trace s @ [Define name (st \<noteq> None)]\<rparr>
      in case self (world s) name of
           None \<Rightarrow> (Inr (), set_slot name (Accessor False g st) s')
         | Some (Data v) \<Rightarrow> (Inr (), set_slot name (Accessor True g st) s')
         | Some (Accessor True g0 st0) \<Rightarrow>
             (Inr (), set_slot name
                        (Accessor True g (case st of None \<Rightarrow> st0 | Some x \<Rightarrow> Some x)) s')
         | Some (Accessor False g0 st0) \<Rightarrow> (Inl TypeError, s'))"

text \<open>Whether the own property \<open>name\<close> is an accessor property with a setter.\<close>

definition has_setter :: "(string \<rightharpoonup> slot) \<Rightarrow> string \<Rightarrow> bool" where
  "has_setter m name =
     (case m name of Some (Accessor c g (Some st)) \<Rightarrow> True | _ \<Rightarrow> False)"

subsection \<open>ScriptBase.prototype.property\<close>

text \<open>\<open>v.k\<close> where \<open>v\<close> is truthy: a property of an object, \<open>undefined\<close> on a primitive.\<close>

definition get_field :: "'h world \<Rightarrow> jsval \<Rightarrow> string \<Rightarrow> jsval" where
  "get_field w v k = (case v of JObj a \<Rightarrow> props w a k | _ \<Rightarrow> JUndefined)"

text \<open>The test \<open>options && options.readOnly\<close>.\<close>

definition options_readOnly :: "jsval \<Rightarrow> 'h state \<Rightarrow> bool" where
  "options_readOnly options s =
     truthy (js_and options (get_field (world s) options ''readOnly''))"

text \<open>The setter shim installed for a property that is not read-only.\<close>

fun run_setter :: "'h env \<Rightarrow> setter \<Rightarrow> jsval \<Rightarrow> (jsval, 'h) js" where
  "run_setter env (SetShim name gsFunc) value =
     js_bind (call_fn env gsFunc []) (\<lambda>oldValue.
     js_bind (call_fn env gsFunc [value]) (\<lambda>newValue.
       if strict_neq oldValue newValue
       then js_bind (get_self env ''__scriptFacade'') (\<lambda>facade.
            js_bind (invoke_method env facade ''changed'' [JStr name]) (\<lambda>_.
            js_return JUndefined))
       else js_return JUndefined))"

definition property :: "'h env \<Rightarrow> string \<Rightarrow> jsval \<Rightarrow> jsval \<Rightarrow> (jsval, 'h) js" where
  "property env name options gsFunc =
     js_bind (get_self env ''__scriptFacade'') (\<lambda>facade.
     js_bind (invoke_method env facade ''property'' [JStr name, options, gsFunc]) (\<lambda>_.
     js_bind (\<lambda>s. if options_readOnly options s
                   then defineProperty name (GetShim gsFunc) None s
                   else defineProperty name (GetShim gsFunc)
                          (Some (SetShim name gsFunc)) s) (\<lambda>_.
     js_return JUndefined)))"

subsection \<open>Assignment to a property of the instance\<close>

text \<open>
  \<open>this[name] = value\<close> as a script executes it, the way a setter gets invoked. The value
  of the assignment is \<open>value\<close>. Assigning to an accessor property without a setter is a
  \<open>TypeError\<close> in strict code and does nothing in sloppy code.
\<close>

definition assign :: "'h env \<Rightarrow> bool \<Rightarrow> string \<Rightarrow> jsval \<Rightarrow> (jsval, 'h) js" where
  "assign env strict name value s =
     (case self (world s) name of
        None \<Rightarrow> (Inr value, set_slot name (Data value) s)
      | Some (Data v) \<Rightarrow> (Inr value, set_slot name (Data value) s)
      | Some (Accessor c g None) \<Rightarrow> (if strict then (Inl TypeError, s) else (Inr value, s))
      | Some (Accessor c g (Some st)) \<Rightarrow>
          js_bind (run_setter env st value) (\<lambda>_. js_return value) s)"

subsection \<open>The pass-through methods\<close>

definition indexedProperty :: "'h env \<Rightarrow> string \<Rightarrow> jsval \<Rightarrow> (jsval, 'h) js" where
  "indexedProperty env name itemType =
     js_bind (get_self env ''__scriptFacade'') (\<lambda>facade.
     invoke_method env facade ''indexedProperty'' [JStr name, itemType])"

definition changed :: "'h env \<Rightarrow> string \<Rightarrow> (jsval, 'h) js" where
  "changed env propName =
     js_bind (get_self env ''__scriptFacade'') (\<lambda>facade.
     js_bind (invoke_method env facade ''changed'' [JStr propName]) (\<lambda>_.
     js_return JUndefined))"

definition unsubscribe :: "'h env \<Rightarrow> string \<Rightarrow> jsval \<Rightarrow> (jsval, 'h) js" where
  "unsubscribe env event listener =
     js_bind (get_self env ''__scriptFacade'') (\<lambda>facade.
     js_bind (invoke_method env facade ''unsubscribe'' [JStr event, listener]) (\<lambda>_.
     js_return JUndefined))"

subsection \<open>ScriptBase.prototype.makeJSArray\<close>

text \<open>
  \<open>makeJSArray\<close> does not use \<open>this\<close>; what matters is which object a reference denotes,
  so its model has a heap of its own. The heap is the list of the objects allocated so
  far, an address is a position in it, and a new object goes to the end. An object is
  \<^item> a native array (\<open>Array.isArray\<close> holds) with its elements,
  \<^item> an array-like object that is not an array: \<open>ArrayLike n f\<close> has the number \<open>n\<close> as
    its \<open>length\<close> and reads \<open>f i\<close> at index \<open>i\<close> (a host list, an \<open>arguments\<close> object),
  \<^item> or any other object, without a \<open>length\<close>.
  Reading \<open>length\<close> or an index of an array-like object has no effect, and a native
  array holds as many elements as are pushed (the engine's capacity is not modelled).
\<close>

datatype container =
    Array "jsval list"
  | ArrayLike nat "nat \<Rightarrow> jsval"
  | Other

type_synonym heap = "container list"

definition lookup :: "heap \<Rightarrow> addr \<Rightarrow> container" where
  "lookup h a = (if a < length h then h ! a else Other)"

text \<open>\<open>Array.isArray(arr)\<close>\<close>

definition isArray :: "heap \<Rightarrow> jsval \<Rightarrow> bool" where
  "isArray h arr =
     (case arr of
        JObj a \<Rightarrow> (case lookup h a of Array xs \<Rightarrow> True | _ \<Rightarrow> False)
      | _ \<Rightarrow> False)"

text \<open>\<open>arr.length\<close>: a \<open>TypeError\<close> on \<open>undefined\<close> and \<open>null\<close>; \<open>None\<close> stands for the value
  \<open>undefined\<close> (booleans, numbers and objects without a \<open>length\<close>), \<open>Some n\<close> for the
  number \<open>n\<close>.\<close>

definition get_length :: "heap \<Rightarrow> jsval \<Rightarrow> exn + nat option" where
  "get_length h arr =
     (case arr of
        JUndefined \<Rightarrow> Inl TypeError
      | JNull \<Rightarrow> Inl TypeError
      | JBool b \<Rightarrow> Inr None
      | JNum n \<Rightarrow> Inr None
      | JStr s \<Rightarrow> Inr (Some (length s))
      | JObj a \<Rightarrow>
          (case lookup h a of
             Array xs \<Rightarrow> Inr (Some (length xs))
           | ArrayLike n f \<Rightarrow> Inr (Some n)
           | Other \<Rightarrow> Inr None))"

text \<open>\<open>arr[i]\<close>: \<open>undefined\<close> where there is no such element; a string yields the
  one-character string at \<open>i\<close>.\<close>

definition get_index :: "heap \<Rightarrow> jsval \<Rightarrow> nat \<Rightarrow> jsval" where
  "get_index h arr i =
     (case arr of
        JStr s \<Rightarrow> (if i < length s then JStr [s ! i] else JUndefined)
      | JObj a \<Rightarrow>
          (case lookup h a of
             Array xs \<Rightarrow> (if i < length xs then xs ! i else JUndefined)
           | ArrayLike n f \<Rightarrow> f i
           | Other \<Rightarrow> JUndefined)
      | _ \<Rightarrow> JUndefined)"

text \<open>\<open>i < length\<close>: false when \<open>length\<close> is \<open>undefined\<close>.\<close>

definition less_length :: "nat \<Rightarrow> nat option \<Rightarrow> bool" where
  "less_length i len = (case len of None \<Rightarrow> False | Some n \<Rightarrow> i < n)"

text \<open>\<open>var result = [];\<close> allocates a new array; \<open>result.push(v)\<close> appends to it in place.\<close>

definition new_array :: "heap \<Rightarrow> addr \<times> heap" where
  "new_array h = (length h, h @ [Array []])"

definition push :: "addr \<Rightarrow> jsval \<Rightarrow> heap \<Rightarrow> heap" where
  "push r v h = (case lookup h r of Array xs \<Rightarrow> h[r := Array (xs @ [v])] | _ \<Rightarrow> h)"

text \<open>The loop \<open>for (var i = 0; i < length; ++i) result.push(arr[i]);\<close> from \<open>i\<close> on.\<close>

function push_loop :: "jsval \<Rightarrow> nat option \<Rightarrow> addr \<Rightarrow> nat \<Rightarrow> heap \<Rightarrow> heap" where
  "push_loop arr len result i h =
     (if less_length i len
      then push_loop arr len result (Suc i) (push result (get_index h arr i) h)
      else h)"
  by pat_completeness auto
termination
  by (relation "measure (\<lambda>(arr, len, result, i, h). (case len of None \<Rightarrow> 0 | Some n \<Rightarrow> n - i))")
     (auto simp: less_length_def split: option.splits)

declare push_loop.simps [simp del]

text \<open>In the source the array test comes first, then \<open>result\<close> is allocated, then
  \<open>arr.length\<close> is read.\<close>

definition makeJSArray :: "jsval \<Rightarrow> heap \<Rightarrow> (exn + jsval) \<times> heap" where
  "makeJSArray arr h =
     (if isArray h arr then (Inr arr, h)
      else case new_array h of
        (result, h1) \<Rightarrow>
          (case get_length h1 arr of
             Inl e \<Rightarrow> (Inl e, h1)
           | Inr len \<Rightarrow> (Inr (JObj result), push_loop arr len result 0 h1)))"

text \<open>The elements of an array-like value, in index order, and what array-like means:
  a native array or an \<open>ArrayLike\<close> object.\<close>

definition elements :: "heap \<Rightarrow> jsval \<Rightarrow> jsval list" where
  "elements h arr =
     (case get_length h arr of
        Inr (Some n) \<Rightarrow> map (get_index h arr) [0..<n]
      | _ \<Rightarrow> [])"

definition array_like :: "heap \<Rightarrow> jsval \<Rightarrow> bool" where
  "array_like h arr =
     (case arr of
        JObj a \<Rightarrow> (case lookup h a of Other \<Rightarrow> False | _ \<Rightarrow> True)
      | _ \<Rightarrow> False)"


section \<open>The declarators (src/unnamed/part\_000)\<close>

text \<open>
  \<open>Reflect.defineMetadata(metadataKey, metadataValue, target, propertyKey)\<close> belongs to
  the reflect-metadata library, not to this repository. Its store is modelled as a map
  from the target object, the property key (\<open>None\<close> when the call has three arguments)
  and the metadata key to the value; a target that is not an object is a \<open>TypeError\<close>.
  The metadata values this code writes are a plain value, a \<open>DriverInfo\<close> object or the
  info object of a resource.
\<close>

datatype BaseDriverType = NetworkTCP | NetworkUDP

fun BaseDriverType_string :: "BaseDriverType \<Rightarrow> string" where
  "BaseDriverType_string NetworkTCP = ''NetworkTCP''"
| "BaseDriverType_string NetworkUDP = ''NetworkUDP''"

datatype RoleRequired = Admin | Manager | Creator | Editor | Contributor | Staff | Spot

fun RoleRequired_string :: "RoleRequired \<Rightarrow> string" where
  "RoleRequired_string Admin = ''Admin''"
| "RoleRequired_string Manager = ''Manager''"
| "RoleRequired_string Creator = ''Creator''"
| "RoleRequired_string Editor = ''Editor''"
| "RoleRequired_string Contributor = ''Contributor''"
| "RoleRequired_string Staff = ''Staff''"
| "RoleRequired_string Spot = ''Spot''"

datatype ResourceVerb = GET | POST

fun ResourceVerb_string :: "ResourceVerb \<Rightarrow> string" where
  "ResourceVerb_string GET = ''GET''"
| "ResourceVerb_string POST = ''POST''"

text \<open>An optional parameter of a string-literal type at run time: \<open>undefined\<close> when
  omitted, the string otherwise.\<close>

definition optional_value :: "('a \<Rightarrow> string) \<Rightarrow> 'a option \<Rightarrow> jsval" where
  "optional_value str x = (case x of None \<Rightarrow> JUndefined | Some y \<Rightarrow> JStr (str y))"

record DriverInfo =
  info :: jsval
  paramTypes :: "string list"

record ResourceInfo =
  auth :: jsval
  verb :: jsval

datatype metadataValue =
    Plain jsval
  | Driver DriverInfo
  | Resource ResourceInfo

type_synonym metadata = "(addr \<times> string option \<times> string) \<rightharpoonup> metadataValue"

definition defineMetadata ::
  "string \<Rightarrow> metadataValue \<Rightarrow> jsval \<Rightarrow> string option \<Rightarrow> metadata \<Rightarrow> (exn + unit) \<times> metadata" where
  "defineMetadata metadataKey metadataValue target propertyKey m =
     (case target of
        JObj a \<Rightarrow> (Inr (), m((a, propertyKey, metadataKey) \<mapsto> metadataValue))
      | _ \<Rightarrow> (Inl TypeError, m))"

text \<open>A declarator takes its configuration and returns the decorator, a function of the
  target (and the property key) that acts on the metadata store. The parameter \<open>verb\<close>
  of \<open>resource\<close> is written \<open>verbArg\<close>, \<open>verb\<close> being the field of the info object.\<close>

definition driver ::
  "BaseDriverType \<Rightarrow> jsval \<Rightarrow> jsval \<Rightarrow> metadata \<Rightarrow> (exn + unit) \<times> metadata" where
  "driver baseDriverType typeSpecificMeta =
     (let info = \<lparr>info = typeSpecificMeta,
                  paramTypes = [BaseDriverType_string baseDriverType]\<rparr>
      in (\<lambda>target. defineMetadata ''pixi:driver'' (Driver info) target None))"

definition min_decl :: "jsnum \<Rightarrow> jsval \<Rightarrow> string \<Rightarrow> metadata \<Rightarrow> (exn + unit) \<times> metadata" where
  "min_decl mn =
     (\<lambda>target propertyKey.
        defineMetadata ''pixi:min'' (Plain (JNum mn)) target (Some propertyKey))"

definition max_decl :: "jsnum \<Rightarrow> jsval \<Rightarrow> string \<Rightarrow> metadata \<Rightarrow> (exn + unit) \<times> metadata" where
  "max_decl mx =
     (\<lambda>target propertyKey.
        defineMetadata ''pixi:max'' (Plain (JNum mx)) target (Some propertyKey))"

definition resource ::
  "RoleRequired option \<Rightarrow> ResourceVerb option \<Rightarrow> jsval \<Rightarrow> string \<Rightarrow> metadata
     \<Rightarrow> (exn + unit) \<times> metadata" where
  "resource roleRequired verbArg =
     (\<lambda>target propertyKey.
        let info = \<lparr>auth = js_or (optional_value RoleRequired_string roleRequired) (JStr ''''),
                     verb = js_or (optional_value ResourceVerb_string verbArg) (JStr ''POST'')\<rparr>
        in defineMetadata ''pixi:resource'' (Resource info) target (Some propertyKey))"

section \<open>A concrete host\<close>

text \<open>
  A small host on which the model can be run. Its state is one stored value. Every
  function value is an accessor over it, as a \<open>gsFunc\<close> is: called without an argument
  it returns the stored value, called with one it stores and returns it. The facade
  methods of \<open>demo_env\<close> do nothing and return \<open>undefined\<close>; those of \<open>failing_env\<close> throw.
  Object 0 is the facade, object 1 is an options object \<open>{readOnly: true}\<close>, object 2
  is a \<open>gsFunc\<close>.
\<close>

definition demo_call :: "jsval \<Rightarrow> jsval list \<Rightarrow> jsval world \<Rightarrow> (exn + jsval) \<times> jsval world" where
  "demo_call f args w =
     (case args of [] \<Rightarrow> (Inr (host w), w) | v # vs \<Rightarrow> (Inr v, w\<lparr>host := v\<rparr>))"

definition demo_env :: "jsval env" where
  "demo_env = \<lparr>call = demo_call, invoke = (\<lambda>recv m args w. (Inr JUndefined, w))\<rparr>"

definition failing_env :: "jsval env" where
  "failing_env =
     \<lparr>call = demo_call, invoke = (\<lambda>recv m args w. (Inl (Thrown (JStr ''refused'')), w))\<rparr>"

definition demo_props :: "addr \<Rightarrow> string \<Rightarrow> jsval" where
  "demo_props a k = (if a = 1 \<and> k = ''readOnly'' then JBool True else JUndefined)"

definition demo_state :: "jsval state" where
  "demo_state =
     \<lparr>world = \<lparr>self = ScriptBase (JObj 0), props = demo_props, host = JNum (Finite 1)\<rparr>,
      trace = []\<rparr>"

text \<open>
  A script that runs \<open>this.x = 0\<close>, then \<open>this.property("x", undefined, gsFunc)\<close>, then
  \<open>this.property("x", {readOnly: true}, gsFunc)\<close>, on the instance of \<open>demo_state\<close>.
\<close>

definition after_assign :: "jsval state" where
  "after_assign = snd (assign demo_env True ''x'' (JNum (Finite 0)) demo_state)"

definition after_writable :: "jsval state" where
  "after_writable = snd (property demo_env ''x'' JUndefined (JObj 2) after_assign)"

definition after_readOnly :: "jsval state" where
  "after_readOnly = snd (property demo_env ''x'' (JObj 1) (JObj 2) after_writable)"

text \<open>A heap for the concrete runs of \<open>makeJSArray\<close>: object 0 is array-like with the
  elements 0, 1, 2 and is not an array, object 1 is the native array \<open>["a"]\<close>.\<close>

definition demo_heap :: heap where
  "demo_heap = [ArrayLike 3 (\<lambda>i. JNum (Finite (of_nat i))), Array [JStr ''a'']]"

text \<open>The instance of \<open>demo_state\<close> after \<open>this.property("x", undefined, gsFunc)\<close>.\<close>

definition demo_registered :: "jsval state" where
  "demo_registered = snd (property demo_env ''x'' JUndefined (JObj 2) demo_state)"

text \<open>The instance of \<open>demo_state\<close> after \<open>this.property("x", {readOnly: true}, gsFunc)\<close>.\<close>

definition demo_readOnly :: "jsval state" where
  "demo_readOnly = snd (property demo_env ''x'' (JObj 1) (JObj 2) demo_state)"


section \<open>The declarators write what they are given\<close>

lemma RoleRequired_string_nonempty: "RoleRequired_string r \<noteq> []"
  by (cases r) simp_all

lemma ResourceVerb_string_nonempty: "ResourceVerb_string v \<noteq> []"
  by (cases v) simp_all

text \<open>
  Claim C6. For every base driver type and every type-specific metadata value, the
  decorator returned by \<open>driver\<close>, applied to a class, returns normally and leaves under
  the key \<open>pixi:driver\<close> of that class an info object whose \<open>paramTypes\<close> is the
  one-element list of the base driver type and whose \<open>info\<close> is the metadata value as it
  was given.
\<close>

theorem driver_records_info:
  "fst (driver baseDriverType typeSpecificMeta (JObj cls) m) = Inr () \<and>
   snd (driver baseDriverType typeSpecificMeta (JObj cls) m) (cls, None, ''pixi:driver'') =
     Some (Driver \<lparr>info = typeSpecificMeta,
                   paramTypes = [BaseDriverType_string baseDriverType]\<rparr>)"
  by (simp add: driver_def defineMetadata_def)

text \<open>
  Claim C7. For every number \<open>n\<close>, the decorators returned by \<open>min n\<close> and \<open>max n\<close>,
  applied to a target object and a property key, return normally, and the metadata
  store afterwards holds \<open>n\<close> itself under \<open>pixi:min\<close> (\<open>pixi:max\<close>) for that target and
  property and is the store of before at every other key. The store is all the state
  a decorator has access to.
\<close>

theorem min_max_only_write_their_key:
  "min_decl n (JObj t) key m =
     (Inr (), \<lambda>k. if k = (t, Some key, ''pixi:min'') then Some (Plain (JNum n)) else m k) \<and>
   max_decl n (JObj t) key m =
     (Inr (), \<lambda>k. if k = (t, Some key, ''pixi:max'') then Some (Plain (JNum n)) else m k)"
  by (auto simp: min_decl_def max_decl_def defineMetadata_def fun_eq_iff)

text \<open>
  Claim C10. For every call \<open>resource(roleRequired, verb)\<close>, the info object recorded
  under \<open>pixi:resource\<close> has the verb \<open>POST\<close> when \<open>verb\<close> is omitted and the given verb
  otherwise, and the auth value \<open>''\<close> when \<open>roleRequired\<close> is omitted and the given role
  otherwise.
\<close>

theorem resource_defaults:
  "resource roleRequired verbArg (JObj t) key m =
     (Inr (), m((t, Some key, ''pixi:resource'') \<mapsto>
        Resource \<lparr>auth = (case roleRequired of None \<Rightarrow> JStr ''''
                           | Some r \<Rightarrow> JStr (RoleRequired_string r)),
                  verb = (case verbArg of None \<Rightarrow> JStr ''POST''
                           | Some v \<Rightarrow> JStr (ResourceVerb_string v))\<rparr>))"
  by (simp add: resource_def defineMetadata_def js_or_def optional_value_def
        RoleRequired_string_nonempty ResourceVerb_string_nonempty split: option.splits)


section \<open>makeJSArray\<close>

lemma elements_Array:
  "a < length h \<Longrightarrow> h ! a = Array xs \<Longrightarrow> map (get_index h (JObj a)) [0..<length xs] = xs"
  by (rule nth_equalityI) (simp_all add: get_index_def lookup_def)

lemma lookup_Array:
  assumes "lookup h a = Array xs"
  shows "isArray h (JObj a)" and "elements h (JObj a) = xs"
proof -
  from assms have a: "a < length h" and h: "h ! a = Array xs"
    by (auto simp: lookup_def split: if_splits)
  show "isArray h (JObj a)" using assms by (simp add: isArray_def)
  show "elements h (JObj a) = xs"
    using assms elements_Array [OF a h] by (simp add: elements_def get_length_def)
qed

text \<open>The loop invariant: when the loop is at \<open>i\<close> and \<open>result\<close> holds \<open>xs\<close>, it ends
  with \<open>result\<close> holding \<open>xs\<close> followed by the elements from \<open>i\<close> on, and touches no other
  object. The source object is not \<open>result\<close>, since it is not an array.\<close>

lemma push_loop_ArrayLike:
  "a < length h \<Longrightarrow> h ! a = ArrayLike n f \<Longrightarrow> r < length h \<Longrightarrow> h ! r = Array xs \<Longrightarrow>
   i \<le> n \<Longrightarrow>
   push_loop (JObj a) (Some n) r i h = h[r := Array (xs @ map f [i..<n])]"
proof (induction "n - i" arbitrary: i h xs)
  case 0
  then have "i = n" by simp
  moreover have "h[r := h ! r] = h" by simp
  ultimately show ?case using 0
    by (subst push_loop.simps) (simp add: less_length_def)
next
  case (Suc k)
  then have lt: "i < n" by simp
  from Suc.prems have ne: "r \<noteq> a" by auto
  let ?h = "push r (get_index h (JObj a) i) h"
  have h': "?h = h[r := Array (xs @ [f i])]"
    using Suc.prems by (simp add: push_def lookup_def get_index_def)
  have "push_loop (JObj a) (Some n) r (Suc i) ?h = ?h[r := Array ((xs @ [f i]) @ map f [Suc i..<n])]"
    using Suc.hyps(2) Suc.prems lt ne by (intro Suc.hyps(1)) (simp_all add: h')
  then show ?case
    using lt by (subst push_loop.simps) (simp add: less_length_def h' upt_conv_Cons)
qed

lemma makeJSArray_isArray: "isArray h arr \<Longrightarrow> makeJSArray arr h = (Inr arr, h)"
  by (simp add: makeJSArray_def)

lemma makeJSArray_array_like:
  assumes "array_like h arr"
  shows "\<exists>r h'. makeJSArray arr h = (Inr (JObj r), h') \<and>
                 lookup h' r = Array (elements h arr) \<and>
                 take (length h) h' = h"
proof -
  from assms obtain a where arr: "arr = JObj a" and a: "a < length h" and no: "h ! a \<noteq> Other"
    by (auto simp: array_like_def lookup_def split: jsval.splits if_splits container.splits)
  show ?thesis
  proof (cases "h ! a")
    case (Array xs)
    have "map (get_index h (JObj a)) [0..<length xs] = xs"
      using a Array by (rule elements_Array)
    then show ?thesis using arr a Array
      by (simp add: makeJSArray_def isArray_def lookup_def elements_def get_length_def)
  next
    case (ArrayLike n f)
    let ?h1 = "h @ [Array []]"
    have "push_loop (JObj a) (Some n) (length h) 0 ?h1 = ?h1[length h := Array ([] @ map f [0..<n])]"
      using a ArrayLike by (intro push_loop_ArrayLike) (simp_all add: nth_append)
    then show ?thesis using arr a ArrayLike
      by (simp add: makeJSArray_def isArray_def lookup_def elements_def get_length_def
            get_index_def new_array_def nth_append)
  next
    case Other
    with no show ?thesis by simp
  qed
qed

text \<open>
  Claim C2. For every array-like input (a native array, or an object with a numeric
  \<open>length\<close> and elements at the indices below it), \<open>makeJSArray\<close> returns, and what it
  returns is a native array holding the elements of the input in the same order; the
  objects that existed before are as they were.
\<close>

theorem makeJSArray_same_elements:
  assumes "array_like h arr"
  shows "\<exists>y h'. makeJSArray arr h = (Inr y, h') \<and> isArray h' y \<and>
                 elements h' y = elements h arr \<and> take (length h) h' = h"
proof -
  from makeJSArray_array_like [OF assms] obtain r h'
    where "makeJSArray arr h = (Inr (JObj r), h')"
      and "lookup h' r = Array (elements h arr)" and "take (length h) h' = h"
    by blast
  then show ?thesis using lookup_Array [of h' r "elements h arr"] by blast
qed

lemma demo_heap_elements:
  "elements demo_heap (JObj 0) = [JNum (Finite 0), JNum (Finite 1), JNum (Finite 2)]"
  by (simp add: elements_def get_length_def get_index_def lookup_def demo_heap_def
        upt_conv_Cons)

theorem makeJSArray_same_elements_witness:
  "array_like demo_heap (JObj 0) \<and> \<not> isArray demo_heap (JObj 0) \<and>
   (\<exists>y h'. makeJSArray (JObj 0) demo_heap = (Inr y, h') \<and> isArray h' y \<and>
            elements h' y = [JNum (Finite 0), JNum (Finite 1), JNum (Finite 2)] \<and>
            take 2 h' = demo_heap)"
proof -
  have al: "array_like demo_heap (JObj 0)"
    by (simp add: array_like_def lookup_def demo_heap_def)
  have na: "\<not> isArray demo_heap (JObj 0)"
    by (simp add: isArray_def lookup_def demo_heap_def)
  have "length demo_heap = 2" by (simp add: demo_heap_def)
  with makeJSArray_same_elements [OF al] al na show ?thesis
    by (simp add: demo_heap_elements)
qed

text \<open>
  Claim C3. For an input that is a native array, \<open>makeJSArray\<close> returns the reference
  it was given and leaves the heap as it was, so the result is the same container and
  not a copy. Hence applying \<open>makeJSArray\<close> to its own result, for an array-like \<open>x\<close>,
  returns that result again and changes nothing.
\<close>

theorem makeJSArray_idempotent:
  "(isArray h arr \<longrightarrow> makeJSArray arr h = (Inr arr, h)) \<and>
   (array_like h x \<longrightarrow>
      (\<exists>y h'. makeJSArray x h = (Inr y, h') \<and> makeJSArray y h' = (Inr y, h')))"
proof (intro conjI impI)
  assume "isArray h arr"
  then show "makeJSArray arr h = (Inr arr, h)" by (rule makeJSArray_isArray)
next
  assume "array_like h x"
  from makeJSArray_array_like [OF this] obtain r h'
    where 1: "makeJSArray x h = (Inr (JObj r), h')"
      and 2: "lookup h' r = Array (elements h x)"
    by blast
  from 2 have "isArray h' (JObj r)" by (rule lookup_Array)
  then have "makeJSArray (JObj r) h' = (Inr (JObj r), h')" by (rule makeJSArray_isArray)
  with 1 show "\<exists>y h'. makeJSArray x h = (Inr y, h') \<and> makeJSArray y h' = (Inr y, h')"
    by blast
qed

theorem makeJSArray_idempotent_witness:
  "isArray demo_heap (JObj 1) \<and> makeJSArray (JObj 1) demo_heap = (Inr (JObj 1), demo_heap) \<and>
   array_like demo_heap (JObj 0) \<and>
   (\<exists>y h'. makeJSArray (JObj 0) demo_heap = (Inr y, h') \<and> makeJSArray y h' = (Inr y, h'))"
proof -
  have ia: "isArray demo_heap (JObj 1)"
    by (simp add: isArray_def lookup_def demo_heap_def)
  have al: "array_like demo_heap (JObj 0)"
    by (simp add: array_like_def lookup_def demo_heap_def)
  from makeJSArray_idempotent [of demo_heap "JObj 1" "JObj 0"] ia al show ?thesis
    by simp
qed

section \<open>ScriptBase\<close>

subsection \<open>Steps of the model\<close>

text \<open>\<open>!==\<close> is inequality, except that \<open>NaN\<close> differs from itself.\<close>

lemma strict_neq_iff: "strict_neq a b \<longleftrightarrow> a \<noteq> b \<or> a = JNum NaN"
  by (cases a; cases b) (auto simp: strict_neq_def)

lemma get_self_Data:
  "self (world s) name = Some (Data v) \<Longrightarrow> get_self env name s = (Inr v, s)"
  by (simp add: get_self_def)

lemma options_readOnly_props:
  "props (world s') = props (world s) \<Longrightarrow> options_readOnly options s' = options_readOnly options s"
  by (cases options) (simp_all add: options_readOnly_def get_field_def)

lemma defineProperty_Inr_slot:
  assumes "defineProperty name g st s = (Inr u, s1)"
  shows "\<exists>c st'. s1 = set_slot name (Accessor c g st')
                        (s\<lparr>trace := trace s @ [Define name (st \<noteq> None)]\<rparr>) \<and>
           (st \<noteq> None \<or> \<not> has_setter (self (world s)) name \<longrightarrow> st' = st)"
proof (cases "self (world s) name")
  case None
  with assms show ?thesis
    by (simp add: defineProperty_def has_setter_def) blast
next
  case (Some sl)
  show ?thesis
  proof (cases sl)
    case (Data v)
    with Some assms show ?thesis
      by (simp add: defineProperty_def has_setter_def) blast
  next
    case (Accessor c g0 st0)
    show ?thesis
    proof (cases c)
      case False
      with Some Accessor assms show ?thesis
        by (simp add: defineProperty_def)
    next
      case True
      show ?thesis
      proof (cases st)
        case None
        with True Some Accessor assms
        have "s1 = set_slot name (Accessor True g st0)
                     (s\<lparr>trace := trace s @ [Define name (st \<noteq> None)]\<rparr>)"
          by (simp add: defineProperty_def)
        moreover have "\<not> has_setter (self (world s)) name \<longrightarrow> st0 = None"
          using Some Accessor by (cases st0) (simp_all add: has_setter_def)
        ultimately show ?thesis using None by blast
      next
        case (Some x)
        with True \<open>self (world s) name = Some sl\<close> Accessor assms
        have "s1 = set_slot name (Accessor True g st)
                     (s\<lparr>trace := trace s @ [Define name (st \<noteq> None)]\<rparr>)"
          by (simp add: defineProperty_def)
        then show ?thesis by blast
      qed
    qed
  qed
qed

lemma defineProperty_Inr:
  assumes "defineProperty name g st s = (Inr u, s1)"
  shows "props (world s1) = props (world s)"
    and "trace s1 = trace s @ [Define name (st \<noteq> None)]"
    and "\<exists>c st'. self (world s1) name = Some (Accessor c g st') \<and>
           (st \<noteq> None \<or> \<not> has_setter (self (world s)) name \<longrightarrow> st' = st)"
proof -
  from defineProperty_Inr_slot [OF assms] obtain c st'
    where s1: "s1 = set_slot name (Accessor c g st')
                      (s\<lparr>trace := trace s @ [Define name (st \<noteq> None)]\<rparr>)"
      and st: "st \<noteq> None \<or> \<not> has_setter (self (world s)) name \<longrightarrow> st' = st"
    by blast
  show "props (world s1) = props (world s)" by (simp add: s1 set_slot_def)
  show "trace s1 = trace s @ [Define name (st \<noteq> None)]" by (simp add: s1 set_slot_def)
  have "self (world s1) name = Some (Accessor c g st')" by (simp add: s1 set_slot_def)
  with st show "\<exists>c st'. self (world s1) name = Some (Accessor c g st') \<and>
           (st \<noteq> None \<or> \<not> has_setter (self (world s)) name \<longrightarrow> st' = st)"
    by blast
qed

lemma defineProperty_trace:
  "trace (snd (defineProperty name g st s)) = trace s @ [Define name (st \<noteq> None)]"
proof (cases "self (world s) name")
  case None
  then show ?thesis by (simp add: defineProperty_def set_slot_def)
next
  case (Some sl)
  then show ?thesis
  proof (cases sl)
    case (Data v)
    with Some show ?thesis by (simp add: defineProperty_def set_slot_def)
  next
    case (Accessor c g0 st0)
    with Some show ?thesis by (cases c) (simp_all add: defineProperty_def set_slot_def)
  qed
qed

lemma invoke_method_trace:
  assumes "invoke_method env recv m args s = (Inr r, s1)"
  shows "trace s1 = trace s @ [Invoke recv m args]"
proof -
  obtain r' w' where "invoke env recv m args (world s) = (r', w')"
    by (cases "invoke env recv m args (world s)")
  with assms show ?thesis
    by (cases recv) (simp_all add: invoke_method_def, auto)
qed

lemma call_fn_trace:
  assumes "call_fn env f args s = (Inr r, s1)"
  shows "trace s1 = trace s @ [Call f args]"
proof -
  obtain r' w' where "call env f args (world s) = (r', w')"
    by (cases "call env f args (world s)")
  with assms show ?thesis
    by (cases f) (simp_all add: call_fn_def, auto)
qed

text \<open>While \<open>__scriptFacade\<close> is the data property the constructor made, \<open>property\<close> is
  the facade's \<open>property\<close> followed, if that returns, by \<open>Object.defineProperty\<close>.\<close>

lemma property_unfold:
  assumes "self (world s) ''__scriptFacade'' = Some (Data facade)"
  shows "property env name options gsFunc s =
     (case invoke_method env facade ''property'' [JStr name, options, gsFunc] s of
        (Inl e, s1) \<Rightarrow> (Inl e, s1)
      | (Inr r, s1) \<Rightarrow>
          (case (if options_readOnly options s1
                 then defineProperty name (GetShim gsFunc) None s1
                 else defineProperty name (GetShim gsFunc) (Some (SetShim name gsFunc)) s1) of
             (Inl e, s2) \<Rightarrow> (Inl e, s2)
           | (Inr u, s2) \<Rightarrow> (Inr JUndefined, s2)))"
proof -
  have g: "get_self env ''__scriptFacade'' s = (Inr facade, s)"
    using assms by (rule get_self_Data)
  show ?thesis
    by (simp add: property_def js_bind_def js_return_def g split: prod.splits sum.splits)
qed

text \<open>A call of \<open>property\<close> that returns has run \<open>Object.defineProperty\<close> last: \<open>sm\<close> is
  the state in which it ran.\<close>

lemma property_Inr:
  assumes "property env name options gsFunc s0 = (Inr u, s1)"
  shows "\<exists>sm. (if options_readOnly options sm
               then defineProperty name (GetShim gsFunc) None sm
               else defineProperty name (GetShim gsFunc) (Some (SetShim name gsFunc)) sm)
              = (Inr (), s1)"
proof -
  obtain r1 sa where 1: "get_self env ''__scriptFacade'' s0 = (r1, sa)" by force
  with assms obtain f where f: "r1 = Inr f"
    by (cases r1) (simp_all add: property_def js_bind_def)
  obtain r2 sm where 2: "invoke_method env f ''property'' [JStr name, options, gsFunc] sa = (r2, sm)"
    by force
  with assms 1 f obtain x where x: "r2 = Inr x"
    by (cases r2) (simp_all add: property_def js_bind_def)
  let ?d = "if options_readOnly options sm
           then defineProperty name (GetShim gsFunc) None sm
           else defineProperty name (GetShim gsFunc) (Some (SetShim name gsFunc)) sm"
  obtain r3 s3 where 3: "?d = (r3, s3)" by force
  with assms 1 f 2 x have "?d = (Inr (), s1)"
    by (cases r3) (simp_all add: property_def js_bind_def js_return_def)
  then show ?thesis ..
qed

lemma property_installs:
  assumes "property env name options gsFunc s0 = (Inr u, s1)"
  shows "\<exists>c st. self (world s1) name = Some (Accessor c (GetShim gsFunc) st) \<and>
           (\<not> options_readOnly options s1 \<longrightarrow> st = Some (SetShim name gsFunc))"
proof -
  from property_Inr [OF assms] obtain sm where
    def: "(if options_readOnly options sm
           then defineProperty name (GetShim gsFunc) None sm
           else defineProperty name (GetShim gsFunc) (Some (SetShim name gsFunc)) sm)
          = (Inr (), s1)" ..
  show ?thesis
  proof (cases "options_readOnly options sm")
    case True
    with def have d: "defineProperty name (GetShim gsFunc) None sm = (Inr (), s1)" by simp
    from options_readOnly_props [OF defineProperty_Inr(1) [OF d]] True
    have "options_readOnly options s1" by simp
    with defineProperty_Inr(3) [OF d] show ?thesis by auto
  next
    case False
    with def have d: "defineProperty name (GetShim gsFunc) (Some (SetShim name gsFunc)) sm = (Inr (), s1)"
      by simp
    from defineProperty_Inr(3) [OF d] show ?thesis by auto
  qed
qed

text \<open>The setter shim, whatever \<open>__scriptFacade\<close> is by then: the notification is what
  the method \<open>changed\<close> of \<open>ScriptBase\<close> does.\<close>

lemma assign_setter:
  assumes slot: "self (world s) name = Some (Accessor c g (Some (SetShim name gsFunc)))"
      and old: "call_fn env gsFunc [] s = (Inr oldValue, sa)"
      and new: "call_fn env gsFunc [value] sa = (Inr newValue, sb)"
  shows "assign env strict name value s =
           (if strict_neq oldValue newValue
            then (case changed env name sb of
                    (Inl e, s') \<Rightarrow> (Inl e, s') | (Inr r, s') \<Rightarrow> (Inr value, s'))
            else (Inr value, sb))"
  using slot
  by (simp add: assign_def js_bind_def old new changed_def js_return_def
      split: prod.splits sum.splits)

lemma changed_Data:
  assumes "self (world s) ''__scriptFacade'' = Some (Data facade)"
  shows "changed env propName s =
     (case invoke_method env facade ''changed'' [JStr propName] s of
        (Inl e, s') \<Rightarrow> (Inl e, s') | (Inr r, s') \<Rightarrow> (Inr JUndefined, s'))"
  by (simp add: changed_def js_bind_def js_return_def get_self_Data [OF assms]
      split: prod.splits sum.splits)

subsection \<open>The setter of a property that is not read-only\<close>

text \<open>
  Claim C1. Let \<open>property(name, options, gsFunc)\<close> have returned with \<open>options\<close> not asking
  for a read-only property, and let the property still be as installed. Assigning a
  value \<open>v\<close> to it calls \<open>gsFunc()\<close>, then \<open>gsFunc(v)\<close>; when both return, the facade's
  \<open>changed(name)\<close> is invoked if the two results differ by \<open>!==\<close>, and nothing more
  happens if they do not. The comparison is between the two results of \<open>gsFunc\<close>, not
  with \<open>v\<close>.
\<close>

theorem setter_notifies_iff_value_differs:
  assumes reg: "property env name options gsFunc s0 = (Inr u, s1)"
      and rw: "\<not> options_readOnly options s1"
      and same: "self (world s) name = self (world s1) name"
      and old: "call_fn env gsFunc [] s = (Inr oldValue, sa)"
      and new: "call_fn env gsFunc [value] sa = (Inr newValue, sb)"
      and fac: "self (world sb) ''__scriptFacade'' = Some (Data facade)"
  shows "assign env strict name value s =
           (if strict_neq oldValue newValue
            then (case invoke_method env facade ''changed'' [JStr name] sb of
                    (Inl e, s') \<Rightarrow> (Inl e, s') | (Inr r, s') \<Rightarrow> (Inr value, s'))
            else (Inr value, sb)) \<and>
         trace sb = trace s @ [Call gsFunc [], Call gsFunc [value]]"
proof -
  from property_installs [OF reg] rw same obtain c
    where slot: "self (world s) name = Some (Accessor c (GetShim gsFunc) (Some (SetShim name gsFunc)))"
    by auto
  have "assign env strict name value s =
           (if strict_neq oldValue newValue
            then (case invoke_method env facade ''changed'' [JStr name] sb of
                    (Inl e, s') \<Rightarrow> (Inl e, s') | (Inr r, s') \<Rightarrow> (Inr value, s'))
            else (Inr value, sb))"
    by (simp add: assign_setter [OF slot old new] changed_Data [OF fac]
        split: prod.splits sum.splits)
  moreover have "trace sb = trace s @ [Call gsFunc [], Call gsFunc [value]]"
    using call_fn_trace [OF old] call_fn_trace [OF new] by simp
  ultimately show ?thesis by simp
qed

subsection \<open>Runs on the concrete host\<close>

lemmas run_simps =
  property_def js_bind_def js_return_def get_self_def invoke_method_def call_fn_def
  defineProperty_def set_slot_def options_readOnly_def js_and_def get_field_def
  assign_def changed_def strict_neq_def has_setter_def
  demo_env_def failing_env_def demo_call_def demo_props_def demo_state_def ScriptBase_def

lemma demo_facade: "self (world demo_state) ''__scriptFacade'' = Some (Data (JObj 0))"
  by (simp add: demo_state_def ScriptBase_def)

lemma demo_registered_eq:
  "demo_registered =
     \<lparr>world = \<lparr>self = [''__scriptFacade'' \<mapsto> Data (JObj 0),
                       ''x'' \<mapsto> Accessor False (GetShim (JObj 2)) (Some (SetShim ''x'' (JObj 2)))],
               props = demo_props, host = JNum (Finite 1)\<rparr>,
      trace = [Invoke (JObj 0) ''property'' [JStr ''x'', JUndefined, JObj 2], Define ''x'' True]\<rparr>"
  by (simp add: demo_registered_def run_simps)

lemma demo_property:
  "property demo_env ''x'' JUndefined (JObj 2) demo_state = (Inr JUndefined, demo_registered)"
  by (simp add: demo_registered_eq) (simp add: run_simps)

theorem setter_notifies_iff_value_differs_witness:
  "property demo_env ''x'' JUndefined (JObj 2) demo_state = (Inr JUndefined, demo_registered) \<and>
   \<not> options_readOnly JUndefined demo_registered \<and>
   fst (assign demo_env True ''x'' (JNum (Finite 5)) demo_registered) = Inr (JNum (Finite 5)) \<and>
   trace (snd (assign demo_env True ''x'' (JNum (Finite 5)) demo_registered)) =
     trace demo_registered @
     [Call (JObj 2) [], Call (JObj 2) [JNum (Finite 5)], Invoke (JObj 0) ''changed'' [JStr ''x'']] \<and>
   fst (assign demo_env True ''x'' (JNum (Finite 1)) demo_registered) = Inr (JNum (Finite 1)) \<and>
   trace (snd (assign demo_env True ''x'' (JNum (Finite 1)) demo_registered)) =
     trace demo_registered @ [Call (JObj 2) [], Call (JObj 2) [JNum (Finite 1)]]"
proof -
  let ?sa = "demo_registered\<lparr>trace := trace demo_registered @ [Call (JObj 2) []]\<rparr>"
  let ?sb = "\<lambda>v. \<lparr>world = (world demo_registered)\<lparr>host := v\<rparr>,
                  trace = trace demo_registered @ [Call (JObj 2) [], Call (JObj 2) [v]]\<rparr>"
  have rw: "\<not> options_readOnly JUndefined demo_registered"
    by (simp add: options_readOnly_def js_and_def)
  have old: "call_fn demo_env (JObj 2) [] demo_registered = (Inr (JNum (Finite 1)), ?sa)"
    by (simp add: demo_registered_eq call_fn_def demo_env_def demo_call_def)
  have new: "call_fn demo_env (JObj 2) [v] ?sa = (Inr v, ?sb v)" for v
    by (simp add: demo_registered_eq call_fn_def demo_env_def demo_call_def)
  have fac: "self (world (?sb v)) ''__scriptFacade'' = Some (Data (JObj 0))" for v
    by (simp add: demo_registered_eq)
  note five = setter_notifies_iff_value_differs
    [OF demo_property rw refl old new [of "JNum (Finite 5)"] fac [of "JNum (Finite 5)"],
     where strict = True]
  note one = setter_notifies_iff_value_differs
    [OF demo_property rw refl old new [of "JNum (Finite 1)"] fac [of "JNum (Finite 1)"],
     where strict = True]
  have differ: "strict_neq (JNum (Finite 1)) (JNum (Finite 5))"
    and equal: "\<not> strict_neq (JNum (Finite 1)) (JNum (Finite 1))"
    by (simp_all add: strict_neq_def)
  from five one differ equal demo_property rw
  show ?thesis
    by (simp add: invoke_method_def demo_env_def)
qed

subsection \<open>Registration comes first\<close>

text \<open>
  Claim C4. A call \<open>property(name, options, gsFunc)\<close> first invokes the facade's
  \<open>property\<close> with the same three arguments, in the state of the call, where the shim
  is not yet there; when that returns, \<open>Object.defineProperty\<close> runs in the state the
  facade left. In the trace the invocation comes immediately before the definition.
\<close>

theorem property_registers_then_defines:
  assumes fac: "self (world s) ''__scriptFacade'' = Some (Data facade)"
      and reg: "invoke_method env facade ''property'' [JStr name, options, gsFunc] s = (Inr r, s1)"
  shows "trace s1 = trace s @ [Invoke facade ''property'' [JStr name, options, gsFunc]] \<and>
         property env name options gsFunc s =
           (case defineProperty name (GetShim gsFunc)
                   (if options_readOnly options s1 then None
                    else Some (SetShim name gsFunc)) s1 of
              (Inl e, s2) \<Rightarrow> (Inl e, s2)
            | (Inr u, s2) \<Rightarrow> (Inr JUndefined, s2)) \<and>
         trace (snd (property env name options gsFunc s)) =
           trace s @ [Invoke facade ''property'' [JStr name, options, gsFunc],
                      Define name (\<not> options_readOnly options s1)]"
proof -
  let ?st = "if options_readOnly options s1 then None else Some (SetShim name gsFunc)"
  have t1: "trace s1 = trace s @ [Invoke facade ''property'' [JStr name, options, gsFunc]]"
    using reg by (rule invoke_method_trace)
  have p: "property env name options gsFunc s =
           (case defineProperty name (GetShim gsFunc) ?st s1 of
              (Inl e, s2) \<Rightarrow> (Inl e, s2)
            | (Inr u, s2) \<Rightarrow> (Inr JUndefined, s2))"
    by (simp add: property_unfold [OF fac] reg)
  have "trace (snd (property env name options gsFunc s)) =
          trace (snd (defineProperty name (GetShim gsFunc) ?st s1))"
    unfolding p by (simp split: prod.splits sum.splits)
  also have "\<dots> = trace s1 @ [Define name (?st \<noteq> None)]"
    by (rule defineProperty_trace)
  finally have "trace (snd (property env name options gsFunc s)) =
           trace s @ [Invoke facade ''property'' [JStr name, options, gsFunc],
                      Define name (\<not> options_readOnly options s1)]"
    by (simp add: t1)
  with t1 p show ?thesis by simp
qed

theorem property_registers_then_defines_witness:
  "self (world demo_state) ''__scriptFacade'' = Some (Data (JObj 0)) \<and>
   invoke_method demo_env (JObj 0) ''property'' [JStr ''x'', JUndefined, JObj 2] demo_state =
     (Inr JUndefined,
      demo_state\<lparr>trace := [Invoke (JObj 0) ''property'' [JStr ''x'', JUndefined, JObj 2]]\<rparr>) \<and>
   trace (snd (property demo_env ''x'' JUndefined (JObj 2) demo_state)) =
     [Invoke (JObj 0) ''property'' [JStr ''x'', JUndefined, JObj 2], Define ''x'' True]"
proof -
  have reg: "invoke_method demo_env (JObj 0) ''property'' [JStr ''x'', JUndefined, JObj 2]
               demo_state =
     (Inr JUndefined,
      demo_state\<lparr>trace := [Invoke (JObj 0) ''property'' [JStr ''x'', JUndefined, JObj 2]]\<rparr>)"
    by (simp add: invoke_method_def demo_env_def demo_state_def)
  have rw: "\<not> options_readOnly JUndefined s" for s :: "jsval state"
    by (simp add: options_readOnly_def js_and_def)
  have tr: "trace demo_state = []" by (simp add: demo_state_def)
  from property_registers_then_defines [OF demo_facade reg, THEN conjunct2, THEN conjunct2]
  have "trace (snd (property demo_env ''x'' JUndefined (JObj 2) demo_state)) =
     [Invoke (JObj 0) ''property'' [JStr ''x'', JUndefined, JObj 2], Define ''x'' True]"
    by (simp add: rw tr)
  with demo_facade reg show ?thesis by simp
qed

subsection \<open>The pass-through methods\<close>

text \<open>
  Claim C5. While \<open>__scriptFacade\<close> holds the facade, \<open>indexedProperty(name, itemType)\<close>
  is the facade's \<open>indexedProperty\<close> on the same arguments: same result, same state,
  same exception. \<open>changed(propName)\<close> and \<open>unsubscribe(event, listener)\<close> are the
  facade's methods of those names on the same arguments, except that they return
  \<open>undefined\<close> whatever the facade returns; they do nothing else.
\<close>

theorem pass_through:
  assumes "self (world s) ''__scriptFacade'' = Some (Data facade)"
  shows "indexedProperty env name itemType s =
           invoke_method env facade ''indexedProperty'' [JStr name, itemType] s \<and>
         changed env propName s =
           (case invoke_method env facade ''changed'' [JStr propName] s of
              (Inl e, s') \<Rightarrow> (Inl e, s') | (Inr r, s') \<Rightarrow> (Inr JUndefined, s')) \<and>
         unsubscribe env event listener s =
           (case invoke_method env facade ''unsubscribe'' [JStr event, listener] s of
              (Inl e, s') \<Rightarrow> (Inl e, s') | (Inr r, s') \<Rightarrow> (Inr JUndefined, s'))"
proof -
  have g: "get_self env ''__scriptFacade'' s = (Inr facade, s)"
    using assms by (rule get_self_Data)
  have "indexedProperty env name itemType s =
           invoke_method env facade ''indexedProperty'' [JStr name, itemType] s"
    by (simp add: indexedProperty_def js_bind_def g)
  moreover have "unsubscribe env event listener s =
           (case invoke_method env facade ''unsubscribe'' [JStr event, listener] s of
              (Inl e, s') \<Rightarrow> (Inl e, s') | (Inr r, s') \<Rightarrow> (Inr JUndefined, s'))"
    by (simp add: unsubscribe_def js_bind_def js_return_def g split: prod.splits sum.splits)
  ultimately show ?thesis using changed_Data [OF assms] by simp
qed

theorem pass_through_witness:
  "self (world demo_state) ''__scriptFacade'' = Some (Data (JObj 0)) \<and>
   indexedProperty demo_env ''items'' JNull demo_state =
     (Inr JUndefined,
      demo_state\<lparr>trace := [Invoke (JObj 0) ''indexedProperty'' [JStr ''items'', JNull]]\<rparr>) \<and>
   changed demo_env ''x'' demo_state =
     (Inr JUndefined, demo_state\<lparr>trace := [Invoke (JObj 0) ''changed'' [JStr ''x'']]\<rparr>) \<and>
   unsubscribe demo_env ''finish'' (JObj 2) demo_state =
     (Inr JUndefined,
      demo_state\<lparr>trace := [Invoke (JObj 0) ''unsubscribe'' [JStr ''finish'', JObj 2]]\<rparr>)"
  using pass_through [OF demo_facade, where env = demo_env and name = "''items''"
      and itemType = JNull and propName = "''x''" and event = "''finish''"
      and listener = "JObj 2"]
  by (simp add: invoke_method_def demo_env_def demo_state_def ScriptBase_def)

subsection \<open>A failing registration\<close>

text \<open>
  Claim C8. If the facade's \<open>property\<close> throws, \<open>property\<close> of \<open>ScriptBase\<close> ends with the
  same exception in the state the facade left: nothing is caught, and
  \<open>Object.defineProperty\<close> is not called, so no getter or setter is installed. The
  state differs from the one of the call by what the facade's method itself did at
  most; if that left the instance alone, the instance is as it was.
\<close>

theorem property_propagates_facade_error:
  assumes fac: "self (world s) ''__scriptFacade'' = Some (Data facade)"
      and err: "invoke_method env facade ''property'' [JStr name, options, gsFunc] s = (Inl e, s1)"
  shows "property env name options gsFunc s = (Inl e, s1) \<and>
         (trace s1 = trace s \<or>
          trace s1 = trace s @ [Invoke facade ''property'' [JStr name, options, gsFunc]]) \<and>
         (world s1 = world s \<or>
          world s1 = snd (invoke env facade ''property'' [JStr name, options, gsFunc] (world s))) \<and>
         (self (snd (invoke env facade ''property'' [JStr name, options, gsFunc] (world s)))
            = self (world s) \<longrightarrow>
          self (world (snd (property env name options gsFunc s))) = self (world s))"
proof -
  have p: "property env name options gsFunc s = (Inl e, s1)"
    by (simp add: property_unfold [OF fac] err)
  obtain r' w' where i: "invoke env facade ''property'' [JStr name, options, gsFunc] (world s) = (r', w')"
    by (cases "invoke env facade ''property'' [JStr name, options, gsFunc] (world s)")
  have s1: "s1 = s \<or> s1 = \<lparr>world = w',
                trace = trace s @ [Invoke facade ''property'' [JStr name, options, gsFunc]]\<rparr>"
    using err i by (cases facade) (auto simp: invoke_method_def)
  from s1 have "trace s1 = trace s \<or>
          trace s1 = trace s @ [Invoke facade ''property'' [JStr name, options, gsFunc]]"
    by auto
  moreover from s1 i have "world s1 = world s \<or>
          world s1 = snd (invoke env facade ''property'' [JStr name, options, gsFunc] (world s))"
    by auto
  moreover from s1 i have
    "self (snd (invoke env facade ''property'' [JStr name, options, gsFunc] (world s)))
            = self (world s) \<longrightarrow> self (world s1) = self (world s)"
    by auto
  ultimately show ?thesis using p by simp
qed

theorem property_propagates_facade_error_witness:
  "self (world demo_state) ''__scriptFacade'' = Some (Data (JObj 0)) \<and>
   invoke_method failing_env (JObj 0) ''property'' [JStr ''x'', JUndefined, JObj 2] demo_state =
     (Inl (Thrown (JStr ''refused'')),
      demo_state\<lparr>trace := [Invoke (JObj 0) ''property'' [JStr ''x'', JUndefined, JObj 2]]\<rparr>) \<and>
   property failing_env ''x'' JUndefined (JObj 2) demo_state =
     (Inl (Thrown (JStr ''refused'')),
      demo_state\<lparr>trace := [Invoke (JObj 0) ''property'' [JStr ''x'', JUndefined, JObj 2]]\<rparr>) \<and>
   self (world (snd (property failing_env ''x'' JUndefined (JObj 2) demo_state))) =
     ScriptBase (JObj 0)"
proof -
  have err: "invoke_method failing_env (JObj 0) ''property'' [JStr ''x'', JUndefined, JObj 2]
               demo_state =
     (Inl (Thrown (JStr ''refused'')),
      demo_state\<lparr>trace := [Invoke (JObj 0) ''property'' [JStr ''x'', JUndefined, JObj 2]]\<rparr>)"
    by (simp add: invoke_method_def failing_env_def demo_state_def)
  have frame: "self (snd (invoke failing_env (JObj 0) ''property''
                 [JStr ''x'', JUndefined, JObj 2] (world demo_state))) = self (world demo_state)"
    by (simp add: failing_env_def)
  from property_propagates_facade_error [OF demo_facade err] frame demo_facade err
  show ?thesis by (simp add: demo_state_def)
qed

subsection \<open>Read-only properties\<close>

text \<open>The script of \<open>after_readOnly\<close>, step by step.\<close>

lemma after_assign_eq:
  "after_assign =
     \<lparr>world = \<lparr>self = [''__scriptFacade'' \<mapsto> Data (JObj 0), ''x'' \<mapsto> Data (JNum (Finite 0))],
               props = demo_props, host = JNum (Finite 1)\<rparr>,
      trace = []\<rparr>"
  by (simp add: after_assign_def assign_def set_slot_def demo_state_def ScriptBase_def)

lemma after_writable_eq:
  "after_writable =
     \<lparr>world = \<lparr>self = [''__scriptFacade'' \<mapsto> Data (JObj 0),
                       ''x'' \<mapsto> Accessor True (GetShim (JObj 2)) (Some (SetShim ''x'' (JObj 2)))],
               props = demo_props, host = JNum (Finite 1)\<rparr>,
      trace = [Invoke (JObj 0) ''property'' [JStr ''x'', JUndefined, JObj 2], Define ''x'' True]\<rparr>"
  by (simp add: after_writable_def after_assign_eq run_simps)

lemma after_readOnly_eq:
  "after_readOnly =
     \<lparr>world = \<lparr>self = [''__scriptFacade'' \<mapsto> Data (JObj 0),
                       ''x'' \<mapsto> Accessor True (GetShim (JObj 2)) (Some (SetShim ''x'' (JObj 2)))],
               props = demo_props, host = JNum (Finite 1)\<rparr>,
      trace = [Invoke (JObj 0) ''property'' [JStr ''x'', JUndefined, JObj 2], Define ''x'' True,
               Invoke (JObj 0) ''property'' [JStr ''x'', JObj 1, JObj 2], Define ''x'' False]\<rparr>"
  by (simp add: after_readOnly_def after_writable_eq run_simps)

text \<open>
  Claim C9 as stated fails. After \<open>this.x = 0\<close> and
  \<open>this.property("x", undefined, gsFunc)\<close> the property \<open>x\<close> is a configurable accessor
  with a setter. \<open>this.property("x", {readOnly: true}, gsFunc)\<close> then returns normally,
  with \<open>options.readOnly\<close> truthy, and \<open>Object.defineProperty\<close> with a descriptor that
  has only \<open>get\<close> leaves that setter in place: an assignment \<open>this.x = 5\<close> calls
  \<open>gsFunc(5)\<close> and the facade's \<open>changed("x")\<close>.
\<close>

theorem readOnly_keeps_setter_counterexample:
  "property demo_env ''x'' (JObj 1) (JObj 2) after_writable = (Inr JUndefined, after_readOnly) \<and>
   options_readOnly (JObj 1) after_readOnly \<and>
   self (world after_readOnly) ''x'' =
     Some (Accessor True (GetShim (JObj 2)) (Some (SetShim ''x'' (JObj 2)))) \<and>
   trace (snd (assign demo_env True ''x'' (JNum (Finite 5)) after_readOnly)) =
     trace after_readOnly @
     [Call (JObj 2) [], Call (JObj 2) [JNum (Finite 5)], Invoke (JObj 0) ''changed'' [JStr ''x'']]"
proof -
  have "property demo_env ''x'' (JObj 1) (JObj 2) after_writable = (Inr JUndefined, after_readOnly)"
    by (simp add: after_readOnly_eq) (simp add: after_writable_eq run_simps)
  moreover have "options_readOnly (JObj 1) after_readOnly"
    by (simp add: after_readOnly_eq options_readOnly_def js_and_def get_field_def demo_props_def)
  moreover have "self (world after_readOnly) ''x'' =
     Some (Accessor True (GetShim (JObj 2)) (Some (SetShim ''x'' (JObj 2))))"
    by (simp add: after_readOnly_eq)
  moreover have "trace (snd (assign demo_env True ''x'' (JNum (Finite 5)) after_readOnly)) =
     trace after_readOnly @
     [Call (JObj 2) [], Call (JObj 2) [JNum (Finite 5)], Invoke (JObj 0) ''changed'' [JStr ''x'']]"
    by (simp add: after_readOnly_eq run_simps)
  ultimately show ?thesis by simp
qed

text \<open>
  Claim C9, amended. Let \<open>property(name, options, gsFunc)\<close> return, with
  \<open>options.readOnly\<close> truthy, and let \<open>name\<close> not be an accessor property with a setter
  already when the shim is defined, that is after the facade has registered the
  property (so for every name not yet defined on the instance). Then the property
  defined has the getter shim and no setter, and while it stays so an assignment to
  it changes nothing: no call of \<open>gsFunc\<close>, no notification. In strict code the
  assignment is a \<open>TypeError\<close>, in sloppy code it is ignored.
\<close>

theorem readOnly_installs_getter_only:
  assumes fac: "self (world s0) ''__scriptFacade'' = Some (Data facade)"
      and inv: "invoke_method env facade ''property'' [JStr name, options, gsFunc] s0 = (Inr r, sm)"
      and ro: "options_readOnly options sm"
      and pre: "\<not> has_setter (self (world sm)) name"
      and reg: "property env name options gsFunc s0 = (Inr u, s1)"
      and same: "self (world s) name = self (world s1) name"
  shows "(\<exists>c. self (world s1) name = Some (Accessor c (GetShim gsFunc) None)) \<and>
         assign env strict name value s =
           (if strict then (Inl TypeError, s) else (Inr value, s))"
proof -
  obtain r3 s3 where d3: "defineProperty name (GetShim gsFunc) None sm = (r3, s3)"
    by (cases "defineProperty name (GetShim gsFunc) None sm")
  with reg have "r3 = Inr () \<and> s3 = s1"
    by (cases r3) (simp_all add: property_unfold [OF fac] inv ro)
  with d3 have d: "defineProperty name (GetShim gsFunc) None sm = (Inr (), s1)" by simp
  from defineProperty_Inr(3) [OF d] pre obtain c
    where slot: "self (world s1) name = Some (Accessor c (GetShim gsFunc) None)"
    by auto
  with same have "assign env strict name value s =
           (if strict then (Inl TypeError, s) else (Inr value, s))"
    by (simp add: assign_def)
  with slot show ?thesis by blast
qed

lemma demo_readOnly_eq:
  "demo_readOnly =
     \<lparr>world = \<lparr>self = [''__scriptFacade'' \<mapsto> Data (JObj 0),
                       ''x'' \<mapsto> Accessor False (GetShim (JObj 2)) None],
               props = demo_props, host = JNum (Finite 1)\<rparr>,
      trace = [Invoke (JObj 0) ''property'' [JStr ''x'', JObj 1, JObj 2], Define ''x'' False]\<rparr>"
  by (simp add: demo_readOnly_def run_simps)

theorem readOnly_installs_getter_only_witness:
  "self (world demo_state) ''__scriptFacade'' = Some (Data (JObj 0)) \<and>
   \<not> has_setter (self (world demo_state)) ''x'' \<and>
   property demo_env ''x'' (JObj 1) (JObj 2) demo_state = (Inr JUndefined, demo_readOnly) \<and>
   self (world demo_readOnly) ''x'' = Some (Accessor False (GetShim (JObj 2)) None) \<and>
   assign demo_env True ''x'' (JNum (Finite 5)) demo_readOnly = (Inl TypeError, demo_readOnly) \<and>
   assign demo_env False ''x'' (JNum (Finite 5)) demo_readOnly =
     (Inr (JNum (Finite 5)), demo_readOnly)"
proof -
  let ?sm = "demo_state\<lparr>trace := [Invoke (JObj 0) ''property'' [JStr ''x'', JObj 1, JObj 2]]\<rparr>"
  have inv: "invoke_method demo_env (JObj 0) ''property'' [JStr ''x'', JObj 1, JObj 2] demo_state
               = (Inr JUndefined, ?sm)"
    by (simp add: invoke_method_def demo_env_def demo_state_def)
  have ro: "options_readOnly (JObj 1) ?sm"
    by (simp add: options_readOnly_def js_and_def get_field_def demo_props_def demo_state_def)
  have pre: "\<not> has_setter (self (world ?sm)) ''x''"
    by (simp add: has_setter_def demo_state_def ScriptBase_def)
  have pre0: "\<not> has_setter (self (world demo_state)) ''x''"
    by (simp add: has_setter_def demo_state_def ScriptBase_def)
  have reg: "property demo_env ''x'' (JObj 1) (JObj 2) demo_state = (Inr JUndefined, demo_readOnly)"
    by (simp add: demo_readOnly_eq) (simp add: run_simps)
  note inst = readOnly_installs_getter_only [OF demo_facade inv ro pre reg refl]
  have slot: "self (world demo_readOnly) ''x'' = Some (Accessor False (GetShim (JObj 2)) None)"
    by (simp add: demo_readOnly_eq)
  from inst [of True "JNum (Finite 5)"] inst [of False "JNum (Finite 5)"]
    demo_facade pre0 reg slot
  show ?thesis by simp
qed

end
